theory Spec2Isabelle
  imports Main
begin

section \<open>Python strings\<close>

text \<open>
  A Python \<^verbatim>\<open>str\<close> is a sequence of Unicode code points, so a string is a list of
  natural numbers here. The three character classes the translator's parser looks at
  (\<^verbatim>\<open>str.strip\<close>, \<^verbatim>\<open>str.isdigit\<close>, \<^verbatim>\<open>int\<close>) are tabulated from the Unicode
  character database (version 14, as shipped with CPython 3.11):
  \<^item> white space, what \<^verbatim>\<open>strip()\<close> removes;
  \<^item> decimal digits (\<^verbatim>\<open>Numeric_Type=Decimal\<close>), which come in runs of ten consecutive
    code points with the values 0 to 9; \<^verbatim>\<open>int\<close> accepts exactly these;
  \<^item> the other digits (\<^verbatim>\<open>Numeric_Type=Digit\<close>: superscripts, subscripts, circled
    digits and so on), which \<^verbatim>\<open>isdigit()\<close> accepts and \<^verbatim>\<open>int\<close> rejects.
\<close>

type_synonym pystr = "nat list"

definition ascii :: "string \<Rightarrow> pystr" where
  "ascii s = map of_char s"

definition newline :: nat where "newline = 10"
definition space :: nat where "space = 32"
definition colon :: nat where "colon = 58"

definition in_ranges :: "nat \<Rightarrow> (nat \<times> nat) list \<Rightarrow> bool" where
  "in_ranges c rs = list_ex (\<lambda>(lo, hi). lo \<le> c \<and> c \<le> hi) rs"

definition whitespace_ranges :: "(nat \<times> nat) list" where
  "whitespace_ranges =
     [(0x9, 0xD), (0x1C, 0x20), (0x85, 0x85), (0xA0, 0xA0), (0x1680, 0x1680),
      (0x2000, 0x200A), (0x2028, 0x2029), (0x202F, 0x202F), (0x205F, 0x205F),
      (0x3000, 0x3000)]"

definition isspace_char :: "nat \<Rightarrow> bool" where
  "isspace_char c = in_ranges c whitespace_ranges"

definition decimal_runs :: "nat list" where
  "decimal_runs =
     [0x30, 0x660, 0x6F0, 0x7C0, 0x966, 0x9E6, 0xA66, 0xAE6, 0xB66, 0xBE6, 0xC66, 0xCE6,
      0xD66, 0xDE6, 0xE50, 0xED0, 0xF20, 0x1040, 0x1090, 0x17E0, 0x1810, 0x1946, 0x19D0,
      0x1A80, 0x1A90, 0x1B50, 0x1BB0, 0x1C40, 0x1C50, 0xA620, 0xA8D0, 0xA900, 0xA9D0,
      0xA9F0, 0xAA50, 0xABF0, 0xFF10, 0x104A0, 0x10D30, 0x11066, 0x110F0, 0x11136,
      0x111D0, 0x112F0, 0x11450, 0x114D0, 0x11650, 0x116C0, 0x11730, 0x118E0, 0x11950,
      0x11C50, 0x11D50, 0x11DA0, 0x16A60, 0x16AC0, 0x16B50, 0x1D7CE, 0x1D7D8, 0x1D7E2,
      0x1D7EC, 0x1D7F6, 0x1E140, 0x1E2F0, 0x1E950, 0x1FBF0]"

definition decimal_value :: "nat \<Rightarrow> nat option" where
  "decimal_value c =
     (case find (\<lambda>s. s \<le> c \<and> c < s + 10) decimal_runs of
        None \<Rightarrow> None
      | Some s \<Rightarrow> Some (c - s))"

definition other_digit_ranges :: "(nat \<times> nat) list" where
  "other_digit_ranges =
     [(0xB2, 0xB3), (0xB9, 0xB9), (0x1369, 0x1371), (0x19DA, 0x19DA), (0x2070, 0x2070),
      (0x2074, 0x2079), (0x2080, 0x2089), (0x2460, 0x2468), (0x2474, 0x247C),
      (0x2488, 0x2490), (0x24EA, 0x24EA), (0x24F5, 0x24FD), (0x24FF, 0x24FF),
      (0x2776, 0x277E), (0x2780, 0x2788), (0x278A, 0x2792), (0x10A40, 0x10A43),
      (0x10E60, 0x10E68), (0x11052, 0x1105A), (0x1F100, 0x1F10A)]"

definition isdigit_char :: "nat \<Rightarrow> bool" where
  "isdigit_char c = (decimal_value c \<noteq> None \<or> in_ranges c other_digit_ranges)"

text \<open>\<^verbatim>\<open>s.strip()\<close>: white space removed at both ends.\<close>

definition py_strip :: "pystr \<Rightarrow> pystr" where
  "py_strip s = rev (dropWhile isspace_char (rev (dropWhile isspace_char s)))"

text \<open>\<^verbatim>\<open>s.split(sep)\<close> for a one-character separator: never the empty list.\<close>

fun py_split :: "nat \<Rightarrow> pystr \<Rightarrow> pystr list" where
  "py_split sep [] = [[]]"
| "py_split sep (c # cs) =
     (if c = sep then [] # py_split sep cs
      else (case py_split sep cs of
              [] \<Rightarrow> [[c]]
            | p # ps \<Rightarrow> (c # p) # ps))"

text \<open>\<^verbatim>\<open>s.split(sep, 1)\<close>: one piece when the separator is absent, two otherwise.\<close>

definition py_split1 :: "nat \<Rightarrow> pystr \<Rightarrow> pystr list" where
  "py_split1 sep s =
     (if sep \<in> set s then [takeWhile (\<lambda>c. c \<noteq> sep) s, tl (dropWhile (\<lambda>c. c \<noteq> sep) s)]
      else [s])"

text \<open>\<^verbatim>\<open>sep.join(xs)\<close>\<close>

fun py_join :: "pystr \<Rightarrow> pystr list \<Rightarrow> pystr" where
  "py_join sep [] = []"
| "py_join sep [x] = x"
| "py_join sep (x # y # ys) = x @ sep @ py_join sep (y # ys)"

text \<open>\<^verbatim>\<open>s.isdigit()\<close>: at least one character, and every character a digit.\<close>

definition py_isdigit :: "pystr \<Rightarrow> bool" where
  "py_isdigit s = (s \<noteq> [] \<and> list_all isdigit_char s)"

datatype error = KeyError | ValueError | ServiceError | OSError

text \<open>
  \<^verbatim>\<open>int(s)\<close>, for the strings the parser passes to it: they have passed
  \<^verbatim>\<open>isdigit()\<close>, so they hold no sign, no white space and no underscore, and
  \<^verbatim>\<open>int\<close> succeeds exactly when every character is a decimal digit and there are
  no more digits than \<^verbatim>\<open>sys.get_int_max_str_digits()\<close> allows, 4300 by default
  (leading zeros count): a longer string raises \<^verbatim>\<open>ValueError\<close>.
\<close>

definition max_str_digits :: nat where
  "max_str_digits = 4300"

definition py_int :: "pystr \<Rightarrow> error + int" where
  "py_int s =
     (if s \<noteq> [] \<and> list_all (\<lambda>c. decimal_value c \<noteq> None) s \<and> length s \<le> max_str_digits
      then Inr (int (foldl (\<lambda>a c. 10 * a + the (decimal_value c)) 0 s))
      else Inl ValueError)"

text \<open>
  \<^verbatim>\<open>str(n)\<close> of an integer, what \<^verbatim>\<open>f"{n}"\<close> prints. (\<^verbatim>\<open>str\<close> has the same limit
  of 4300 digits; an id beyond it cannot be read from the input file, where
  \<^verbatim>\<open>json.load\<close> converts it with \<^verbatim>\<open>int\<close>, so the prompt builder never prints one.)
\<close>

function digits_of_nat :: "nat \<Rightarrow> pystr" where
  "digits_of_nat n = (if n < 10 then [48 + n] else digits_of_nat (n div 10) @ [48 + n mod 10])"
  by pat_completeness auto
termination
  by (relation "measure id") auto

declare digits_of_nat.simps [simp del]

definition py_str_int :: "int \<Rightarrow> pystr" where
  "py_str_int i = (if i < 0 then 45 # digits_of_nat (nat (- i)) else digits_of_nat (nat i))"

section \<open>The response parser\<close>

text \<open>
  A translated record is the dictionary \<^verbatim>\<open>{'id': ..., <language key>: ...}\<close>; the
  language key is \<^verbatim>\<open>self.target_language.lower()\<close>, the same for a whole run and
  taken to differ from \<^verbatim>\<open>'id'\<close>, so the dictionary is a record of two fields.
\<close>

record translated =
  tid :: int
  ttext :: pystr

text \<open>
  The guard of both flushes, \<^verbatim>\<open>current_id is not None and current_translation\<close>,
  and the \<^verbatim>\<open>translations.append\<close> it protects.
\<close>

definition flush :: "translated list \<Rightarrow> int option \<Rightarrow> pystr list \<Rightarrow> translated list" where
  "flush translations current_id current_translation =
     (case current_id of
        None \<Rightarrow> translations
      | Some n \<Rightarrow>
          if current_translation \<noteq> []
          then translations @ [\<lparr>tid = n, ttext = py_join [space] current_translation\<rparr>]
          else translations)"

definition is_id_line :: "pystr \<Rightarrow> bool" where
  "is_id_line line = (colon \<in> set line \<and> py_isdigit (py_strip (hd (py_split colon line))))"

fun parse_loop ::
  "pystr list \<Rightarrow> translated list \<Rightarrow> int option \<Rightarrow> pystr list \<Rightarrow> error + translated list" where
  "parse_loop [] translations current_id current_translation =
     Inr (flush translations current_id current_translation)"
| "parse_loop (raw # rest) translations current_id current_translation =
     (let line = py_strip raw in
      if line = [] then parse_loop rest translations current_id current_translation
      else if is_id_line line then
        (let translations' = flush translations current_id current_translation;
             parts = py_split1 colon line
         in case py_int (py_strip (parts ! 0)) of
              Inl e \<Rightarrow> Inl e
            | Inr n \<Rightarrow>
                parse_loop rest translations' (Some n)
                  (if length parts > 1 then [py_strip (parts ! 1)] else []))
      else if current_id \<noteq> None then
        parse_loop rest translations current_id (current_translation @ [line])
      else parse_loop rest translations current_id current_translation)"

definition parse_gemini_response :: "pystr \<Rightarrow> error + translated list" where
  "parse_gemini_response response_text =
     parse_loop (py_split newline (py_strip response_text)) [] None []"

section \<open>Records and the prompt builder\<close>

text \<open>
  An input record is the dictionary read from the input file. Its \<^verbatim>\<open>'id'\<close> is read
  with a subscript (a missing key raises \<^verbatim>\<open>KeyError\<close>), the other fields with
  \<^verbatim>\<open>get\<close> and a default; the English field is either a string or the dictionary
  \<^verbatim>\<open>{'narrator': ..., 'text': ...}\<close>. Fields hold integers and strings as in the
  data model.
\<close>

datatype english = No_english | Plain_english pystr | Structured_english "pystr option" "pystr option"

record hadith =
  hid :: "int option"
  arabic :: "pystr option"
  english :: english

definition get_default :: "pystr option \<Rightarrow> pystr" where
  "get_default field = (case field of None \<Rightarrow> [] | Some s \<Rightarrow> s)"

definition english_text :: "hadith \<Rightarrow> pystr" where
  "english_text h =
     (case english h of
        Structured_english narrator text \<Rightarrow>
          py_strip (get_default narrator @ [space] @ get_default text)
      | Plain_english s \<Rightarrow> s
      | No_english \<Rightarrow> [])"

definition format_entry :: "hadith \<Rightarrow> error + pystr" where
  "format_entry h =
     (let english_text = english_text h;
          arabic_text = get_default (arabic h)
      in case hid h of
           None \<Rightarrow> Inl KeyError
         | Some i \<Rightarrow>
             Inr (ascii ''ID: '' @ py_str_int i @ [newline] @
                  ascii ''Arabic: '' @ arabic_text @ [newline] @
                  ascii ''English: '' @ english_text))"

fun prompt_texts :: "hadith list \<Rightarrow> pystr list \<Rightarrow> error + pystr list" where
  "prompt_texts [] texts = Inr texts"
| "prompt_texts (h # hadiths) texts =
     (case format_entry h of
        Inl e \<Rightarrow> Inl e
      | Inr entry \<Rightarrow> prompt_texts hadiths (texts @ [entry]))"

definition header :: "pystr \<Rightarrow> pystr" where
  "header target_language =
     ascii ''Translate the following hadith texts to '' @ target_language @ ascii ''.'' @
       [newline] @
     ascii ''For each hadith, return only the ID and translation in this exact format:'' @
       [newline] @
     ascii ''[ID]: ['' @ target_language @ ascii '' translation]'' @ [newline, newline] @
     ascii ''Here are the hadiths:'' @ [newline, newline]"

text \<open>The text of the one part \<^verbatim>\<open>[{"text": ...}]\<close> that the function returns.\<close>

definition create_batch_prompt :: "pystr \<Rightarrow> hadith list \<Rightarrow> error + pystr" where
  "create_batch_prompt target_language hadiths =
     (case prompt_texts hadiths [] of
        Inl e \<Rightarrow> Inl e
      | Inr texts \<Rightarrow> Inr (header target_language @ py_join [newline, newline] texts))"

section \<open>Chunk files and the run\<close>

text \<open>
  The directory \<^verbatim>\<open>batch_translations\<close> holds the files \<^verbatim>\<open>batch_<n>.json\<close>; a file is
  named by its number, and the directory is the list of its entries in the order
  \<^verbatim>\<open>os.listdir\<close> gives them. A file's content is what \<^verbatim>\<open>json.load\<close> makes of
  it: a decoding error, a JSON array (of translated records), or another JSON value, of
  which the code looks at the truth value only. Files of other names, whose sort key
  would raise, and files that cannot be opened or read are left out.
\<close>

datatype file_content = Invalid_json | Json_value bool | Json_array "translated list"

datatype log_entry =
    Saved_batch nat
  | Processed_batch nat nat
  | Error_processing_batch nat error
  | Error_reading nat
  | Starting_initial_translation
  | Combining_batches
  | Checking_for_missing
  | Found_missing nat
  | Processing_missing nat
  | Translation_complete

text \<open>
  The world the run acts on: the chunk directory, every write to it so far (file number
  and the content left behind), the console, the number of calls made to the external
  service, and the final output file.
\<close>

record world =
  batch_dir :: "(nat \<times> file_content) list"
  writes :: "(nat \<times> file_content) list"
  console :: "log_entry list"
  calls :: nat
  final_translations :: "translated list option"

text \<open>
  What is outside the program: the reply (or the exception) of the \<open>k\<close>-th call of
  \<^verbatim>\<open>generate_content\<close>, and how writing the chunk file of that call goes.
  \<^verbatim>\<open>open(batch_file, 'w')\<close> creates or truncates the file, so a \<^verbatim>\<open>json.dump\<close>
  that raises afterwards leaves a truncated file, which is not a JSON document.
\<close>

datatype disk_outcome = Write_ok | Open_fails | Dump_fails

record env =
  generate_content :: "nat \<Rightarrow> pystr \<Rightarrow> error + pystr"
  disk :: "nat \<Rightarrow> disk_outcome"

definition print :: "log_entry \<Rightarrow> world \<Rightarrow> world" where
  "print entry w = w\<lparr>console := console w @ [entry]\<rparr>"

fun put_file :: "nat \<Rightarrow> file_content \<Rightarrow> (nat \<times> file_content) list \<Rightarrow> (nat \<times> file_content) list" where
  "put_file n c [] = [(n, c)]"
| "put_file n c ((m, d) # files) = (if m = n then (n, c) # files else (m, d) # put_file n c files)"

definition write_file :: "nat \<Rightarrow> file_content \<Rightarrow> world \<Rightarrow> world" where
  "write_file n c w = w\<lparr>batch_dir := put_file n c (batch_dir w), writes := writes w @ [(n, c)]\<rparr>"

definition save_batch :: "disk_outcome \<Rightarrow> translated list \<Rightarrow> nat \<Rightarrow> world \<Rightarrow> error option \<times> world" where
  "save_batch outcome translations batch_num w =
     (case outcome of
        Open_fails \<Rightarrow> (Some OSError, w)
      | Dump_fails \<Rightarrow> (Some OSError, write_file batch_num Invalid_json w)
      | Write_ok \<Rightarrow>
          (None, print (Saved_batch batch_num) (write_file batch_num (Json_array translations) w)))"

text \<open>\<^verbatim>\<open>batch_data and isinstance(batch_data, list)\<close>\<close>

fun truthy :: "file_content \<Rightarrow> bool" where
  "truthy (Json_array xs) = (xs \<noteq> [])"
| "truthy (Json_value b) = b"
| "truthy Invalid_json = False"

fun is_list :: "file_content \<Rightarrow> bool" where
  "is_list (Json_array xs) = True"
| "is_list c = False"

fun elements :: "file_content \<Rightarrow> translated list" where
  "elements (Json_array xs) = xs"
| "elements c = []"

fun combine_loop ::
  "(nat \<times> file_content) list \<Rightarrow> translated list \<Rightarrow> world \<Rightarrow> translated list \<times> world" where
  "combine_loop [] combined_hadiths w = (combined_hadiths, w)"
| "combine_loop ((n, batch_data) # batch_files) combined_hadiths w =
     (if batch_data = Invalid_json then
        combine_loop batch_files combined_hadiths (print (Error_reading n) w)
      else if truthy batch_data \<and> is_list batch_data then
        (if length (elements batch_data) < 20
         then combine_loop batch_files (combined_hadiths @ butlast (elements batch_data)) w
         else combine_loop batch_files (combined_hadiths @ elements batch_data) w)
      else combine_loop batch_files combined_hadiths w)"

definition combine_batches_except_last :: "world \<Rightarrow> translated list \<times> world" where
  "combine_batches_except_last w = combine_loop (sort_key fst (batch_dir w)) [] w"

text \<open>
  \<^verbatim>\<open>find_missing_hadiths\<close> reads the input file again; \<open>original_hadiths\<close> is its
  content.
\<close>

fun missing_loop :: "hadith list \<Rightarrow> int set \<Rightarrow> error + hadith list" where
  "missing_loop [] translated_ids = Inr []"
| "missing_loop (h # hs) translated_ids =
     (case hid h of
        None \<Rightarrow> Inl KeyError
      | Some i \<Rightarrow>
          (case missing_loop hs translated_ids of
             Inl e \<Rightarrow> Inl e
           | Inr missing \<Rightarrow> Inr (if i \<notin> translated_ids then h # missing else missing)))"

definition find_missing_hadiths :: "hadith list \<Rightarrow> translated list \<Rightarrow> error + hadith list" where
  "find_missing_hadiths original_hadiths translated_hadiths =
     (let translated_ids = set (map tid translated_hadiths)
      in missing_loop original_hadiths translated_ids)"

text \<open>
  The body of the \<^verbatim>\<open>try\<close> in \<^verbatim>\<open>translate_hadiths\<close>, on the loop's variables
  \<open>(translations, batch_num)\<close>: either an exception, with the world as it is when the
  exception is raised, or the new values of the variables. \<^verbatim>\<open>time.sleep(3)\<close> has no
  effect on the world.
\<close>

definition try_block ::
  "env \<Rightarrow> pystr \<Rightarrow> hadith list \<Rightarrow> translated list \<times> nat \<times> world
     \<Rightarrow> (error + translated list \<times> nat) \<times> world" where
  "try_block e target_language batch s =
     (case s of (translations, batch_num, w) \<Rightarrow>
        (case create_batch_prompt target_language batch of
           Inl err \<Rightarrow> (Inl err, w)
         | Inr contents \<Rightarrow>
             (let k = calls w; w1 = w\<lparr>calls := k + 1\<rparr>
              in case generate_content e k contents of
                   Inl err \<Rightarrow> (Inl err, w1)
                 | Inr response_text \<Rightarrow>
                     (case parse_gemini_response response_text of
                        Inl err \<Rightarrow> (Inl err, w1)
                      | Inr batch_translations \<Rightarrow>
                          (case save_batch (disk e k) batch_translations batch_num w1 of
                             (Some err, w2) \<Rightarrow> (Inl err, w2)
                           | (None, w2) \<Rightarrow>
                               (Inr (translations @ batch_translations, batch_num + 1),
                                print (Processed_batch batch_num (length batch_translations)) w2))))))"

text \<open>The \<^verbatim>\<open>try\<close> with its \<^verbatim>\<open>except Exception\<close>: one iteration of the chunk loop.\<close>

definition process_batch ::
  "env \<Rightarrow> pystr \<Rightarrow> hadith list \<Rightarrow> translated list \<times> nat \<times> world
     \<Rightarrow> translated list \<times> nat \<times> world" where
  "process_batch e target_language batch s =
     (case s of (translations, batch_num, w) \<Rightarrow>
        (case try_block e target_language batch s of
           (Inl err, w') \<Rightarrow> (translations, batch_num, print (Error_processing_batch batch_num err) w')
         | (Inr (translations', batch_num'), w') \<Rightarrow> (translations', batch_num', w')))"

text \<open>\<^verbatim>\<open>xs[i:j]\<close> for \<open>0 \<le> i\<close> and \<open>0 \<le> j\<close>\<close>

definition slice :: "nat \<Rightarrow> nat \<Rightarrow> 'a list \<Rightarrow> 'a list" where
  "slice i j xs = take (j - i) (drop i xs)"

text \<open>\<^verbatim>\<open>for i in range(0, len(hadiths), batch_size)\<close>, from the index \<open>i\<close> on.\<close>

function translate_from ::
  "env \<Rightarrow> pystr \<Rightarrow> hadith list \<Rightarrow> nat \<Rightarrow> nat \<Rightarrow> translated list \<times> nat \<times> world
     \<Rightarrow> translated list \<times> nat \<times> world" where
  "translate_from e target_language hadiths batch_size i s =
     (if i < length hadiths \<and> 0 < batch_size
      then translate_from e target_language hadiths batch_size (i + batch_size)
             (process_batch e target_language
                (slice i (min (i + batch_size) (length hadiths)) hadiths) s)
      else s)"
  by pat_completeness auto
termination
  by (relation "measure (\<lambda>(e, l, hadiths, batch_size, i, s). length hadiths - i)") auto

declare translate_from.simps [simp del]

text \<open>\<^verbatim>\<open>range\<close> raises \<^verbatim>\<open>ValueError\<close> for a step of zero.\<close>

definition translate_hadiths ::
  "env \<Rightarrow> pystr \<Rightarrow> hadith list \<Rightarrow> nat \<Rightarrow> world \<Rightarrow> error + translated list \<times> world" where
  "translate_hadiths e target_language hadiths batch_size w =
     (if batch_size = 0 then Inl ValueError
      else (case translate_from e target_language hadiths batch_size 0 ([], 1, w) of
              (translations, batch_num, w') \<Rightarrow> Inr (translations, w')))"

definition write_final :: "translated list \<Rightarrow> world \<Rightarrow> world" where
  "write_final combined_translations w =
     print Translation_complete (w\<lparr>final_translations := Some combined_translations\<rparr>)"

text \<open>
  \<^verbatim>\<open>process_all\<close>, on the records \<open>hadiths\<close> that the input file holds. Reading the
  input file and writing \<^verbatim>\<open>final_translations.json\<close> are taken to succeed.
\<close>

definition process_all :: "env \<Rightarrow> pystr \<Rightarrow> hadith list \<Rightarrow> world \<Rightarrow> error + world" where
  "process_all e target_language hadiths w =
     (case translate_hadiths e target_language hadiths 20 (print Starting_initial_translation w) of
        Inl err \<Rightarrow> Inl err
      | Inr (initial_translations, w1) \<Rightarrow>
          (case combine_batches_except_last (print Combining_batches w1) of
             (combined_translations, w2) \<Rightarrow>
               (let w3 = print Checking_for_missing w2 in
                case find_missing_hadiths hadiths combined_translations of
                  Inl err \<Rightarrow> Inl err
                | Inr missing_hadiths \<Rightarrow>
                    if missing_hadiths \<noteq> [] then
                      (let w4 = print (Found_missing (length missing_hadiths)) w3;
                           batch_size = (if length missing_hadiths < 20 then 5 else 20);
                           w5 = print (Processing_missing batch_size) w4
                       in case translate_hadiths e target_language missing_hadiths batch_size w5 of
                            Inl err \<Rightarrow> Inl err
                          | Inr (additional_translations, w6) \<Rightarrow>
                              Inr (write_final (combined_translations @ additional_translations) w6))
                    else Inr (write_final combined_translations w3))))"

section \<open>Notions of the specification and example data\<close>

text \<open>
  What one chunk file adds to the combined result, in the words of the combination rule:
  an array of fewer than 20 records without its last record, a longer array in full,
  anything else nothing.
\<close>

definition contribution :: "file_content \<Rightarrow> translated list" where
  "contribution c =
     (case c of
        Json_array xs \<Rightarrow> if length xs < 20 then butlast xs else xs
      | Json_value b \<Rightarrow> []
      | Invalid_json \<Rightarrow> [])"

text \<open>The messages \<^verbatim>\<open>Error reading batch_<n>.json\<close> for the files that do not decode.\<close>

definition decode_errors :: "(nat \<times> file_content) list \<Rightarrow> log_entry list" where
  "decode_errors files =
     map (\<lambda>(n, c). Error_reading n) (filter (\<lambda>(n, c). c = Invalid_json) files)"

definition numbered :: "nat \<Rightarrow> nat \<Rightarrow> translated list" where
  "numbered a b = map (\<lambda>k. \<lparr>tid = int k, ttext = ascii ''t''\<rparr>) [a ..< b]"

definition two_files :: world where
  "two_files =
     \<lparr>batch_dir = [(2, Json_array (numbered 20 40)), (1, Json_array (numbered 1 20))],
      writes = [], console = [], calls = 0, final_translations = None\<rparr>"

definition odd_files :: world where
  "odd_files =
     \<lparr>batch_dir = [(3, Invalid_json), (1, Json_array []), (2, Json_value True)],
      writes = [], console = [], calls = 0, final_translations = None\<rparr>"

definition plain :: "int \<Rightarrow> hadith" where
  "plain i = \<lparr>hid = Some i, arabic = Some (ascii ''a''), english = Plain_english (ascii ''e'')\<rparr>"

definition two_hadiths :: "hadith list" where
  "two_hadiths =
     [\<lparr>hid = Some 7, arabic = Some [0x62D, 0x62F], english = Plain_english (ascii ''He said'')\<rparr>,
      \<lparr>hid = Some 12, arabic = None,
        english = Structured_english (Some (ascii ''Umar: '')) (Some (ascii ''Deeds ''))\<rparr>]"

text \<open>
  A reply made of one line \<^verbatim>\<open>f"{id}: {text}"\<close> for each pair, joined by newlines, and the
  translated record a pair stands for.
\<close>

definition reply_line :: "int \<times> pystr \<Rightarrow> pystr" where
  "reply_line p = py_str_int (fst p) @ ascii '': '' @ snd p"

definition render_reply :: "(int \<times> pystr) list \<Rightarrow> pystr" where
  "render_reply pairs = py_join [newline] (map reply_line pairs)"

definition as_record :: "int \<times> pystr \<Rightarrow> translated" where
  "as_record p = \<lparr>tid = fst p, ttext = snd p\<rparr>"

definition empty_world :: world where
  "empty_world = \<lparr>batch_dir = [], writes = [], console = [], calls = 0, final_translations = None\<rparr>"

definition dump_fails_env :: env where
  "dump_fails_env = \<lparr>generate_content = (\<lambda>k prompt. Inr (ascii ''1: a'')), disk = (\<lambda>k. Dump_fails)\<rparr>"

definition service_down_env :: env where
  "service_down_env = \<lparr>generate_content = (\<lambda>k prompt. Inl ServiceError), disk = (\<lambda>k. Write_ok)\<rparr>"

text \<open>
  A write is complete when it leaves a JSON document. \<open>numbered_from b\<close> holds of the
  writes of a pass that starts at the number \<open>b\<close> when every write goes to the file
  of the current number and the number advances with every complete write.
\<close>

definition complete :: "nat \<times> file_content \<Rightarrow> bool" where
  "complete f = (snd f \<noteq> Invalid_json)"

fun numbered_from :: "nat \<Rightarrow> (nat \<times> file_content) list \<Rightarrow> bool" where
  "numbered_from b [] = True"
| "numbered_from b (f # fs) = (fst f = b \<and> numbered_from (if complete f then Suc b else b) fs)"

definition written_once :: "world \<Rightarrow> bool" where
  "written_once w = distinct (map fst (writes w))"

definition echo_env :: env where
  "echo_env = \<lparr>generate_content = (\<lambda>k prompt. Inr (ascii ''1: a'')), disk = (\<lambda>k. Write_ok)\<rparr>"

definition after_two_passes :: world where
  "after_two_passes =
     \<lparr>batch_dir = [(1, Json_array [\<lparr>tid = 1, ttext = ascii ''a''\<rparr>])],
      writes = [(1, Json_array [\<lparr>tid = 1, ttext = ascii ''a''\<rparr>]),
                (1, Json_array [\<lparr>tid = 1, ttext = ascii ''a''\<rparr>])],
      console = [Starting_initial_translation, Saved_batch 1, Processed_batch 1 1,
                 Combining_batches, Checking_for_missing, Found_missing 1,
                 Processing_missing 5, Saved_batch 1, Processed_batch 1 1,
                 Translation_complete],
      calls = 2,
      final_translations = Some [\<lparr>tid = 1, ttext = ascii ''a''\<rparr>]\<rparr>"

definition after_two_chunks :: world where
  "after_two_chunks =
     \<lparr>batch_dir = [(1, Json_array [\<lparr>tid = 1, ttext = ascii ''a''\<rparr>]),
                   (2, Json_array [\<lparr>tid = 2, ttext = ascii ''a''\<rparr>])],
      writes = [(1, Json_array [\<lparr>tid = 1, ttext = ascii ''a''\<rparr>]),
                (2, Json_array [\<lparr>tid = 2, ttext = ascii ''a''\<rparr>])],
      console = [Saved_batch 1, Processed_batch 1 1, Saved_batch 2, Processed_batch 2 1],
      calls = 2,
      final_translations = None\<rparr>"

definition counting_env :: env where
  "counting_env =
     \<lparr>generate_content = (\<lambda>k prompt. Inr (py_str_int (int k + 1) @ ascii '': a'')),
      disk = (\<lambda>k. Write_ok)\<rparr>"







section \<open>Evaluating the string functions\<close>

lemmas char_tables =
  in_ranges_def whitespace_ranges_def isspace_char_def decimal_runs_def decimal_value_def
  other_digit_ranges_def isdigit_char_def

lemmas parser_defs =
  parse_gemini_response_def ascii_def newline_def space_def colon_def py_strip_def
  py_split1_def py_isdigit_def py_int_def max_str_digits_def flush_def is_id_line_def Let_def

section \<open>The response parser: identifier lines without content\<close>

text \<open>
  Claim C6: the parser emits no record for an identifier line that is followed only by
  blank lines or the end of the input. The code does emit one. For the reply \<^verbatim>\<open>5:\<close>,
  \<^verbatim>\<open>line.split(':', 1)\<close> is \<^verbatim>\<open>['5', '']\<close>, so \<^verbatim>\<open>current_translation\<close> becomes
  the one-element list \<^verbatim>\<open>['']\<close>, which is true in the guard of the final flush, and
  the record with id 5 and the empty translation is appended. The guard on
  \<^verbatim>\<open>current_translation\<close> and the branch \<^verbatim>\<open>else []\<close> (never taken, since the line
  holds a colon) show that a record without content was meant to be left out.
\<close>

theorem parse_id_line_without_content:
  "parse_gemini_response (ascii ''5:'') = Inr [\<lparr>tid = 5, ttext = []\<rparr>]"
  by (simp add: parser_defs char_tables)

section \<open>The response parser: digits that are not decimal\<close>

text \<open>
  Claim C7: for every input string the parser returns without raising an exception. The
  code guards \<^verbatim>\<open>int\<close> with \<^verbatim>\<open>isdigit()\<close>, which also accepts digits that
  \<^verbatim>\<open>int\<close> rejects. The reply \<^verbatim>\<open>\<twosuperior>: x\<close> (U+00B2 SUPERSCRIPT TWO, a colon, a space,
  \<^verbatim>\<open>x\<close>) is taken for an identifier line, and \<^verbatim>\<open>int\<close> raises \<^verbatim>\<open>ValueError\<close>, which
  leaves \<^verbatim>\<open>parse_gemini_response\<close>.
\<close>

theorem parse_raises_on_superscript_digit:
  "parse_gemini_response [0xB2, 0x3A, 0x20, 0x78] = Inl ValueError"
  by (simp add: parser_defs char_tables)

section \<open>Combination of the chunk files\<close>

lemma combine_loop_closed:
  "combine_loop files combined w =
     (combined @ concat (map (\<lambda>(n, c). contribution c) files),
      w\<lparr>console := console w @ decode_errors files\<rparr>)"
proof (induction files arbitrary: combined w)
  case Nil
  then show ?case by (simp add: decode_errors_def)
next
  case (Cons f files)
  obtain n c where f: "f = (n, c)" by (cases f)
  show ?case
  proof (cases c)
    case Invalid_json
    then show ?thesis using Cons f by (simp add: contribution_def decode_errors_def print_def)
  next
    case (Json_value b)
    then show ?thesis using Cons f by (simp add: contribution_def decode_errors_def)
  next
    case (Json_array xs)
    then show ?thesis using Cons f by (cases xs) (simp_all add: contribution_def decode_errors_def)
  qed
qed

text \<open>
  Claim C3: the combined result is the concatenation, in the order of the file numbers,
  of what each chunk file contributes; a file holding an array of fewer than 20 records
  contributes all of them but the last (a file of 19 its first 18), a file holding 20 or
  more records contributes all of them.
\<close>

theorem combine_trims_short_files:
  "fst (combine_batches_except_last w) =
     concat (map (\<lambda>(n, c). contribution c) (sort_key fst (batch_dir w))) \<and>
   (length xs < 20 \<longrightarrow> contribution (Json_array xs) = butlast xs) \<and>
   (length xs = 19 \<longrightarrow> contribution (Json_array xs) = take 18 xs) \<and>
   (20 \<le> length ys \<longrightarrow> contribution (Json_array ys) = ys)"
  by (simp add: combine_batches_except_last_def combine_loop_closed contribution_def butlast_conv_take)

theorem combine_trims_short_files_witness:
  "length (numbered 1 20) = 19 \<and> length (numbered 20 40) = 20 \<and>
   fst (combine_batches_except_last two_files) = numbered 1 19 @ numbered 20 40"
proof -
  have l1: "length (numbered 1 20) = 19" and l2: "length (numbered 20 40) = 20"
    by (simp_all add: numbered_def)
  have s: "sort_key fst (batch_dir two_files) =
             [(1, Json_array (numbered 1 20)), (2, Json_array (numbered 20 40))]"
    by (simp add: two_files_def)
  have t: "take 18 (numbered 1 20) = numbered 1 19"
    by (simp add: numbered_def take_map)
  have b: "butlast (numbered 1 20) = numbered 1 19"
    using l1 t by (simp add: butlast_conv_take)
  from combine_trims_short_files [of two_files "numbered 1 20" "numbered 20 40"] l1 l2 s t b
  show ?thesis by simp
qed

text \<open>
  Claim C10: a chunk file that decodes to the empty array, or to a JSON value that is
  not an array, adds no record to the combined result and no line to the console; the
  only lines combination prints are those for the files that do not decode.
\<close>

theorem combine_skips_silently:
  "combine_batches_except_last w =
     (concat (map (\<lambda>(n, c). contribution c) (sort_key fst (batch_dir w))),
      w\<lparr>console := console w @ decode_errors (sort_key fst (batch_dir w))\<rparr>) \<and>
   contribution (Json_array []) = [] \<and> contribution (Json_value b) = [] \<and>
   decode_errors [(n, Json_array [])] = [] \<and> decode_errors [(n, Json_value b)] = []"
  by (simp add: combine_batches_except_last_def combine_loop_closed contribution_def decode_errors_def)

theorem combine_skips_silently_witness:
  "combine_batches_except_last odd_files = ([], odd_files\<lparr>console := [Error_reading 3]\<rparr>)"
  using combine_skips_silently [of odd_files True 1]
  by (simp add: odd_files_def contribution_def decode_errors_def)

section \<open>Missing records\<close>

lemma missing_loop_filter:
  "\<forall>h\<in>set hs. hid h \<noteq> None \<Longrightarrow>
   missing_loop hs ids = Inr (filter (\<lambda>h. the (hid h) \<notin> ids) hs)"
  by (induction hs) auto

text \<open>
  Claim C4: for every list of input records (each with an id) and every list of
  translated records, \<^verbatim>\<open>find_missing_hadiths\<close> returns the input records, in input
  order, whose id is not the id of any translated record: a record is missing if and only
  if it is an input record and its id is not among the translated ids. For the input ids
  1 to 5 and the translated ids 1, 2 and 4 the missing records are those with the ids 3
  and 5.
\<close>

theorem missing_are_the_untranslated:
  assumes "\<forall>h\<in>set original_hadiths. hid h \<noteq> None"
  shows "\<exists>missing. find_missing_hadiths original_hadiths translated_hadiths = Inr missing \<and>
           missing = filter (\<lambda>h. the (hid h) \<notin> tid ` set translated_hadiths) original_hadiths \<and>
           (\<forall>h. h \<in> set missing \<longleftrightarrow>
                  h \<in> set original_hadiths \<and> the (hid h) \<notin> tid ` set translated_hadiths)"
  using assms by (simp add: find_missing_hadiths_def missing_loop_filter)

theorem missing_are_the_untranslated_witness:
  "map hid (map plain [1, 2, 3, 4, 5]) = [Some 1, Some 2, Some 3, Some 4, Some 5] \<and>
   find_missing_hadiths (map plain [1, 2, 3, 4, 5])
     [\<lparr>tid = 1, ttext = []\<rparr>, \<lparr>tid = 2, ttext = []\<rparr>, \<lparr>tid = 4, ttext = []\<rparr>] =
   Inr [plain 3, plain 5]"
proof -
  have h: "\<forall>h\<in>set (map plain [1, 2, 3, 4, 5]). hid h \<noteq> None"
    by (simp add: plain_def)
  from missing_are_the_untranslated [OF h, of "[\<lparr>tid = 1, ttext = []\<rparr>, \<lparr>tid = 2, ttext = []\<rparr>, \<lparr>tid = 4, ttext = []\<rparr>]"] h
  show ?thesis by (simp add: plain_def)
qed

section \<open>The prompt builder\<close>

lemma prompt_texts_map:
  "\<forall>h\<in>set hs. hid h \<noteq> None \<Longrightarrow>
   prompt_texts hs texts =
     Inr (texts @ map (\<lambda>h. ascii ''ID: '' @ py_str_int (the (hid h)) @ [newline] @
                         ascii ''Arabic: '' @ get_default (arabic h) @ [newline] @
                         ascii ''English: '' @ english_text h) hs)"
  by (induction hs arbitrary: texts) (auto simp: format_entry_def)

lemma prompt_texts_error:
  "\<exists>h\<in>set hs. hid h = None \<Longrightarrow> prompt_texts hs texts = Inl KeyError"
  by (induction hs arbitrary: texts) (auto simp: format_entry_def split: option.splits)

text \<open>
  Claim C9: for every chunk of records (each with an id) and every target language, the
  prompt is the header followed by one formatted entry for each record of the chunk, in
  the order of the chunk, separated by blank lines; each entry starts with
  \<^verbatim>\<open>ID: \<close> and the record's id as \<^verbatim>\<open>str\<close> prints it. The prompt is a function of
  the chunk and the language alone.
\<close>

theorem prompt_has_one_entry_per_record:
  assumes "\<forall>h\<in>set hadiths. hid h \<noteq> None"
  shows "create_batch_prompt target_language hadiths =
           Inr (header target_language @
                py_join [newline, newline]
                  (map (\<lambda>h. ascii ''ID: '' @ py_str_int (the (hid h)) @ [newline] @
                         ascii ''Arabic: '' @ get_default (arabic h) @ [newline] @
                         ascii ''English: '' @ english_text h) hadiths))"
  using assms by (simp add: create_batch_prompt_def prompt_texts_map)

theorem prompt_has_one_entry_per_record_witness:
  "map hid two_hadiths = [Some 7, Some 12] \<and>
   create_batch_prompt (ascii ''French'') two_hadiths =
     Inr (header (ascii ''French'') @
          ascii ''ID: 7'' @ [newline] @ ascii ''Arabic: '' @ [0x62D, 0x62F] @ [newline] @
          ascii ''English: He said'' @ [newline, newline] @
          ascii ''ID: 12'' @ [newline] @ ascii ''Arabic: '' @ [newline] @
          ascii ''English: Umar:  Deeds'')"
proof -
  have h: "\<forall>h\<in>set two_hadiths. hid h \<noteq> None"
    by (simp add: two_hadiths_def)
  have d: "py_str_int 7 = ascii ''7''" "py_str_int 12 = ascii ''12''"
    by (simp_all add: py_str_int_def digits_of_nat.simps ascii_def)
  from prompt_has_one_entry_per_record [OF h, of "ascii ''French''"] h d
  show ?thesis
    by (simp add: two_hadiths_def english_text_def get_default_def py_strip_def char_tables
        ascii_def space_def)
qed

section \<open>The response parser: replies of one line for each record\<close>

lemma ascii_digit_decimal: "48 \<le> c \<Longrightarrow> c < 58 \<Longrightarrow> decimal_value c = Some (c - 48)"
  by (simp add: decimal_value_def decimal_runs_def)

lemma ascii_digit_not_space: "48 \<le> c \<Longrightarrow> c < 58 \<Longrightarrow> \<not> isspace_char c"
  by (simp add: isspace_char_def in_ranges_def whitespace_ranges_def)

lemma space_is_space: "isspace_char 32"
  by (simp add: isspace_char_def in_ranges_def whitespace_ranges_def)

lemma digits_of_nat_range: "c \<in> set (digits_of_nat n) \<Longrightarrow> 48 \<le> c \<and> c < 58"
proof (induction n rule: digits_of_nat.induct)
  case (1 n)
  then show ?case
    by (subst (asm) (2) digits_of_nat.simps) (auto split: if_splits)
qed

lemma digits_of_nat_nonempty: "digits_of_nat n \<noteq> []"
  by (subst digits_of_nat.simps) simp

lemma digits_of_nat_value:
  "foldl (\<lambda>a c. 10 * a + the (decimal_value c)) 0 (digits_of_nat n) = n"
proof (induction n rule: digits_of_nat.induct)
  case (1 n)
  show ?case
  proof (cases "n < 10")
    case True
    then show ?thesis
      by (subst digits_of_nat.simps) (simp add: ascii_digit_decimal)
  next
    case False
    have "decimal_value (48 + n mod 10) = Some (n mod 10)"
      using ascii_digit_decimal [of "48 + n mod 10"] by simp
    with False 1 show ?thesis
      by (subst digits_of_nat.simps) simp
  qed
qed

lemma py_int_digits:
  assumes "length (digits_of_nat n) \<le> max_str_digits"
  shows "py_int (digits_of_nat n) = Inr (int n)"
proof -
  have "list_all (\<lambda>c. decimal_value c \<noteq> None) (digits_of_nat n)"
    using digits_of_nat_range [of _ n] by (auto simp: list_all_iff ascii_digit_decimal)
  then show ?thesis
    using assms by (simp add: py_int_def digits_of_nat_nonempty digits_of_nat_value)
qed

lemma py_int_too_long: "max_str_digits < length s \<Longrightarrow> py_int s = Inl ValueError"
  by (simp add: py_int_def)

lemma py_isdigit_digits: "py_isdigit (digits_of_nat n)"
  using digits_of_nat_range [of _ n]
  by (auto simp: py_isdigit_def digits_of_nat_nonempty list_all_iff isdigit_char_def ascii_digit_decimal)

lemma py_strip_unchanged:
  "s \<noteq> [] \<Longrightarrow> \<not> isspace_char (hd s) \<Longrightarrow> \<not> isspace_char (last s) \<Longrightarrow> py_strip s = s"
proof -
  assume a: "s \<noteq> []" "\<not> isspace_char (hd s)" "\<not> isspace_char (last s)"
  have 1: "dropWhile isspace_char s = s"
    using a by (simp add: dropWhile_eq_self_iff)
  have 2: "dropWhile isspace_char (rev s) = rev s"
    using a by (simp add: dropWhile_eq_self_iff hd_rev)
  show ?thesis by (simp add: py_strip_def 1 2)
qed

lemma length_py_strip: "length (py_strip s) \<le> length (dropWhile isspace_char s)"
  using length_dropWhile_le [of isspace_char "rev (dropWhile isspace_char s)"]
  by (simp add: py_strip_def)

lemma py_strip_fixed:
  assumes "py_strip s = s" "s \<noteq> []"
  shows "\<not> isspace_char (hd s) \<and> \<not> isspace_char (last s)"
proof -
  have a: "\<not> isspace_char (hd s)"
  proof
    assume h: "isspace_char (hd s)"
    obtain x xs where s: "s = x # xs" using assms(2) by (cases s) auto
    have "length (dropWhile isspace_char s) \<le> length xs"
      using h s length_dropWhile_le [of isspace_char xs] by simp
    then have "length (py_strip s) < length s"
      using length_py_strip [of s] s by simp
    with assms(1) show False by simp
  qed
  then have d: "dropWhile isspace_char s = s"
    by (simp add: dropWhile_eq_self_iff)
  have b: "\<not> isspace_char (last s)"
  proof
    assume h: "isspace_char (last s)"
    have "rev s \<noteq> []" using assms(2) by simp
    then obtain x xs where r: "rev s = x # xs" by (cases "rev s") auto
    have "x = last s" using r assms(2) by (metis hd_rev list.sel(1))
    then have "dropWhile isspace_char (rev s) = dropWhile isspace_char xs"
      unfolding r using h by simp
    then have "length (dropWhile isspace_char (rev s)) \<le> length xs"
      using length_dropWhile_le [of isspace_char xs] by simp
    moreover have "length s = Suc (length xs)"
      using r by (metis length_Cons length_rev)
    ultimately have "length (py_strip s) < length s"
      by (simp add: py_strip_def d)
    with assms(1) show False by simp
  qed
  from a b show ?thesis by simp
qed

lemma py_split_nonempty: "py_split sep s \<noteq> []"
  by (induction s) (auto split: list.splits)

lemma hd_py_split: "hd (py_split sep s) = takeWhile (\<lambda>c. c \<noteq> sep) s"
  by (induction s) (auto split: list.splits simp: py_split_nonempty)

lemma py_split_no_sep: "sep \<notin> set a \<Longrightarrow> py_split sep a = [a]"
  by (induction a) auto

lemma py_split_append: "sep \<notin> set a \<Longrightarrow> py_split sep (a @ sep # b) = a # py_split sep b"
  by (induction a) (auto split: list.splits)

lemma py_split_join:
  "lines \<noteq> [] \<Longrightarrow> \<forall>l\<in>set lines. sep \<notin> set l \<Longrightarrow>
   py_split sep (py_join [sep] lines) = lines"
  by (induction "[sep]" lines rule: py_join.induct) (auto simp: py_split_no_sep py_split_append)

lemma hd_py_join: "x \<noteq> [] \<Longrightarrow> hd (py_join sep (x # xs)) = hd x"
  by (cases xs) auto

lemma py_join_nonempty: "xs \<noteq> [] \<Longrightarrow> last xs \<noteq> [] \<Longrightarrow> py_join sep xs \<noteq> []"
  by (induction sep xs rule: py_join.induct) auto

lemma last_py_join:
  "xs \<noteq> [] \<Longrightarrow> last xs \<noteq> [] \<Longrightarrow> last (py_join sep xs) = last (last xs)"
  by (induction sep xs rule: py_join.induct) (auto simp: py_join_nonempty)

lemma ascii_colon_space: "ascii '': '' = [58, 32]"
  by (simp add: ascii_def)

lemma py_str_int_nonneg: "0 \<le> i \<Longrightarrow> py_str_int i = digits_of_nat (nat i)"
  by (simp add: py_str_int_def)

lemma py_strip_digits: "py_strip (digits_of_nat n) = digits_of_nat n"
proof (rule py_strip_unchanged)
  show "digits_of_nat n \<noteq> []" by (rule digits_of_nat_nonempty)
  have "hd (digits_of_nat n) \<in> set (digits_of_nat n)" "last (digits_of_nat n) \<in> set (digits_of_nat n)"
    by (simp_all add: digits_of_nat_nonempty)
  then show "\<not> isspace_char (hd (digits_of_nat n))" "\<not> isspace_char (last (digits_of_nat n))"
    using digits_of_nat_range ascii_digit_not_space by blast+
qed

lemma py_strip_after_space:
  assumes "t \<noteq> []" "py_strip t = t"
  shows "py_strip (32 # t) = t"
proof -
  have "dropWhile isspace_char (32 # t) = dropWhile isspace_char t"
    by (simp add: space_is_space)
  then have "py_strip (32 # t) = py_strip t"
    by (simp add: py_strip_def)
  with assms show ?thesis by simp
qed

lemma reply_line_step:
  assumes "0 \<le> i" "t \<noteq> []" "py_strip t = t" "length (py_str_int i) \<le> max_str_digits"
  shows "parse_loop (reply_line (i, t) # rest) trs cid cur =
           parse_loop rest (flush trs cid cur) (Some i) [t]"
proof -
  define ds where "ds = digits_of_nat (nat i)"
  define line where "line = ds @ 58 # 32 # t"
  have line: "reply_line (i, t) = line"
    using assms(1) by (simp add: reply_line_def line_def ds_def py_str_int_nonneg ascii_colon_space)
  have ds_ne: "ds \<noteq> []" by (simp add: ds_def digits_of_nat_nonempty)
  have ds_range: "\<forall>c\<in>set ds. 48 \<le> c \<and> c < 58"
    using digits_of_nat_range by (auto simp: ds_def)
  have no_colon: "\<forall>c\<in>set ds. c \<noteq> 58" using ds_range by auto
  have "hd line = hd ds" "last line = last t"
    using ds_ne assms(2) by (simp_all add: line_def)
  moreover have "\<not> isspace_char (hd ds)"
    using ds_ne ds_range ascii_digit_not_space by (metis hd_in_set)
  moreover have "\<not> isspace_char (last t)"
    using py_strip_fixed [OF assms(3) assms(2)] by simp
  ultimately have strip: "py_strip line = line"
    by (intro py_strip_unchanged) (simp_all add: line_def)
  have tw: "takeWhile (\<lambda>c. c \<noteq> 58) line = ds"
    using no_colon by (simp add: line_def takeWhile_append)
  have dw: "dropWhile (\<lambda>c. c \<noteq> 58) line = 58 # 32 # t"
    using no_colon by (simp add: line_def dropWhile_append)
  have idl: "is_id_line line"
    by (simp add: is_id_line_def hd_py_split colon_def tw)
       (simp add: line_def ds_def py_strip_digits py_isdigit_digits)
  have parts: "py_split1 colon line = [ds, 32 # t]"
    by (simp add: py_split1_def colon_def tw dw) (simp add: line_def)
  have "length ds \<le> max_str_digits"
    using assms(1,4) by (simp add: ds_def py_str_int_nonneg)
  then have int: "py_int (py_strip ds) = Inr i"
    using assms(1) by (simp add: ds_def py_strip_digits py_int_digits)
  have "line \<noteq> []" by (simp add: line_def)
  then show ?thesis
    unfolding line
    by (simp add: strip idl parts int py_strip_after_space [OF assms(2) assms(3)])
qed

lemma parse_loop_reply_lines:
  assumes "\<forall>(i, t)\<in>set pairs.
             0 \<le> i \<and> t \<noteq> [] \<and> py_strip t = t \<and> length (py_str_int i) \<le> max_str_digits"
  shows "parse_loop (map reply_line pairs) trs cid cur =
           Inr (flush trs cid cur @ map as_record pairs)"
  using assms
proof (induction pairs arbitrary: trs cid cur)
  case Nil
  then show ?case by simp
next
  case (Cons p pairs)
  obtain i t where p: "p = (i, t)" by (cases p)
  from Cons.prems p have h: "0 \<le> i" "t \<noteq> []" "py_strip t = t"
    "length (py_str_int i) \<le> max_str_digits" by auto
  from Cons.prems have rest: "\<forall>(i, t)\<in>set pairs.
      0 \<le> i \<and> t \<noteq> [] \<and> py_strip t = t \<and> length (py_str_int i) \<le> max_str_digits" by simp
  have "parse_loop (map reply_line (p # pairs)) trs cid cur =
          parse_loop (map reply_line pairs) (flush trs cid cur) (Some i) [t]"
    using reply_line_step [OF h] by (simp only: p list.map)
  also have "\<dots> = Inr (flush (flush trs cid cur) (Some i) [t] @ map as_record pairs)"
    by (rule Cons.IH [OF rest])
  also have "flush (flush trs cid cur) (Some i) [t] = flush trs cid cur @ [as_record p]"
    by (simp add: flush_def as_record_def p)
  finally show ?case by simp
qed

lemma reply_line_shape:
  assumes "0 \<le> i" "t \<noteq> []" "newline \<notin> set t" "py_strip t = t"
  shows "reply_line (i, t) \<noteq> [] \<and> newline \<notin> set (reply_line (i, t)) \<and>
         \<not> isspace_char (hd (reply_line (i, t))) \<and> \<not> isspace_char (last (reply_line (i, t)))"
proof -
  define ds where "ds = digits_of_nat (nat i)"
  have line: "reply_line (i, t) = ds @ 58 # 32 # t"
    using assms(1) by (simp add: reply_line_def ds_def py_str_int_nonneg ascii_colon_space)
  have ds_ne: "ds \<noteq> []" by (simp add: ds_def digits_of_nat_nonempty)
  have ds_range: "\<forall>c\<in>set ds. 48 \<le> c \<and> c < 58"
    using digits_of_nat_range by (auto simp: ds_def)
  have "\<not> isspace_char (hd ds)"
    using ds_ne ds_range ascii_digit_not_space by (metis hd_in_set)
  moreover have "\<not> isspace_char (last t)"
    using py_strip_fixed [OF assms(4) assms(2)] by simp
  moreover have "newline \<notin> set ds" using ds_range by (auto simp: newline_def)
  ultimately show ?thesis
    using ds_ne assms(2,3) by (simp add: line newline_def)
qed

lemma parse_render_reply:
  assumes "\<forall>(i, t)\<in>set pairs.
             0 \<le> i \<and> length (py_str_int i) \<le> max_str_digits \<and>
             t \<noteq> [] \<and> newline \<notin> set t \<and> py_strip t = t"
  shows "parse_gemini_response (render_reply pairs) = Inr (map as_record pairs)"
proof (cases "pairs = []")
  case True
  then show ?thesis
    by (simp add: parse_gemini_response_def render_reply_def py_strip_def flush_def)
next
  case False
  define ls where "ls = map reply_line pairs"
  have shape: "\<forall>l\<in>set ls. l \<noteq> [] \<and> newline \<notin> set l \<and> \<not> isspace_char (hd l) \<and> \<not> isspace_char (last l)"
    using assms reply_line_shape by (fastforce simp: ls_def)
  have ne: "ls \<noteq> []" using False by (simp add: ls_def)
  then obtain l ls' where ls: "ls = l # ls'" by (cases ls) auto
  have "hd (py_join [newline] ls) = hd (hd ls)"
    using shape ls by (simp add: hd_py_join)
  moreover have "last (py_join [newline] ls) = last (last ls)"
    using shape ne by (simp add: last_py_join)
  moreover have "py_join [newline] ls \<noteq> []"
    using shape ne by (simp add: py_join_nonempty)
  ultimately have "py_strip (py_join [newline] ls) = py_join [newline] ls"
    using shape ne by (intro py_strip_unchanged) simp_all
  moreover have "py_split newline (py_join [newline] ls) = ls"
    using shape ne by (simp add: py_split_join)
  moreover have "\<forall>(i, t)\<in>set pairs.
      0 \<le> i \<and> t \<noteq> [] \<and> py_strip t = t \<and> length (py_str_int i) \<le> max_str_digits"
    using assms by auto
  ultimately show ?thesis
    by (simp add: parse_gemini_response_def render_reply_def ls_def [symmetric])
       (simp add: ls_def parse_loop_reply_lines flush_def)
qed

text \<open>
  Claim C2, as amended: for every list of pairs of an id and a text, where each id is a
  non-negative integer that \<^verbatim>\<open>str\<close> prints with at most 4300 digits and each text is
  non-empty, holds no newline and is unchanged by \<^verbatim>\<open>strip()\<close>, the parser returns,
  for the reply made of the lines \<^verbatim>\<open>f"{id}: {text}"\<close> joined by newlines, exactly the
  records of these pairs, in the same order. Nothing is asked of the colons inside a
  text: the text stands on the line of its own identifier, and only the part of a line
  before its first colon is looked at. (An id of more digits cannot be printed or read
  back: \<^verbatim>\<open>str\<close> and \<^verbatim>\<open>int\<close> raise \<^verbatim>\<open>ValueError\<close> beyond 4300 digits.)
\<close>

theorem parse_reproduces_reply_lines:
  assumes "\<forall>(i, t)\<in>set pairs.
             0 \<le> i \<and> length (py_str_int i) \<le> max_str_digits \<and>
             t \<noteq> [] \<and> newline \<notin> set t \<and> py_strip t = t"
  shows "parse_gemini_response (render_reply pairs) = Inr (map as_record pairs)"
  using assms by (rule parse_render_reply)

theorem parse_reproduces_reply_lines_witness:
  "length (py_str_int 3) = 1 \<and> length (py_str_int 10) = 2 \<and>
   py_strip (ascii ''trois'') = ascii ''trois'' \<and> newline \<notin> set (ascii ''trois'') \<and>
   py_strip (ascii ''dix: 10'') = ascii ''dix: 10'' \<and> newline \<notin> set (ascii ''dix: 10'') \<and>
   parse_gemini_response (ascii ''3: trois'' @ [newline] @ ascii ''10: dix: 10'') =
     Inr [\<lparr>tid = 3, ttext = ascii ''trois''\<rparr>, \<lparr>tid = 10, ttext = ascii ''dix: 10''\<rparr>]"
proof -
  have d: "py_str_int 3 = [51]" "py_str_int 10 = [49, 48]"
    by (simp_all add: py_str_int_def digits_of_nat.simps)
  have h: "\<forall>(i, t)\<in>set [(3::int, ascii ''trois''), (10, ascii ''dix: 10'')].
      0 \<le> i \<and> length (py_str_int i) \<le> max_str_digits \<and>
      t \<noteq> [] \<and> newline \<notin> set t \<and> py_strip t = t"
    by (simp add: d max_str_digits_def ascii_def newline_def py_strip_def char_tables)
  have r: "render_reply [(3::int, ascii ''trois''), (10, ascii ''dix: 10'')] =
             ascii ''3: trois'' @ [newline] @ ascii ''10: dix: 10''"
    by (simp add: render_reply_def reply_line_def py_str_int_def digits_of_nat.simps ascii_def)
  from parse_reproduces_reply_lines [OF h] h r show ?thesis
    by (simp add: as_record_def d)
qed

text \<open>
  Claim C2 as stated admits every integer id. A negative id is printed with a minus
  sign, \<^verbatim>\<open>'-5'.isdigit()\<close> is false, and the line \<^verbatim>\<open>-5: a\<close> is not an identifier
  line: with no identifier seen before it, it is dropped and the parser returns no record.
\<close>

theorem negative_id_not_reproduced:
  "parse_gemini_response (render_reply [(- 5 :: int, ascii ''a'')]) = Inr [] \<and>
   parse_gemini_response (render_reply [(- 5 :: int, ascii ''a'')]) \<noteq> Inr (map as_record [(- 5 :: int, ascii ''a'')])"
  by (simp add: render_reply_def reply_line_def py_str_int_def digits_of_nat.simps parser_defs char_tables)

section \<open>The chunk loop\<close>

lemma try_block_error:
  assumes "try_block e l batch (translations, batch_num, w) = (Inl err, w')"
  shows "writes w' = writes w \<and> batch_dir w' = batch_dir w \<or>
         (\<exists>contents response_text batch_translations.
            create_batch_prompt l batch = Inr contents \<and>
            generate_content e (calls w) contents = Inr response_text \<and>
            parse_gemini_response response_text = Inr batch_translations \<and>
            disk e (calls w) = Dump_fails \<and>
            w' = write_file batch_num Invalid_json (w\<lparr>calls := calls w + 1\<rparr>))"
  using assms
  by (auto simp: try_block_def save_batch_def Let_def
           split: sum.splits disk_outcome.splits)

lemma translate_from_step:
  "i < length hadiths \<Longrightarrow> 0 < batch_size \<Longrightarrow>
   translate_from e l hadiths batch_size i s =
     translate_from e l hadiths batch_size (i + batch_size)
       (process_batch e l (slice i (min (i + batch_size) (length hadiths)) hadiths) s)"
  by (subst translate_from.simps) simp

lemma translate_from_done:
  "\<not> i < length hadiths \<Longrightarrow> translate_from e l hadiths batch_size i s = s"
  by (subst translate_from.simps) simp

lemma translate_hadiths_returns:
  "0 < batch_size \<Longrightarrow> \<exists>translations w'. translate_hadiths e l hadiths batch_size w = Inr (translations, w')"
  by (auto simp: translate_hadiths_def split: prod.splits)

text \<open>
  Claim C8, as amended: if the \<^verbatim>\<open>try\<close> block of a chunk raises an error, the chunk adds
  no translated record, the batch number stays, the error is printed and the loop goes on
  with the next chunk; \<^verbatim>\<open>translate_hadiths\<close> returns, whatever happens to its chunks.
  No chunk file is written for the chunk (the directory is as before), unless prompt
  construction, the external call and parsing all succeeded and \<^verbatim>\<open>json.dump\<close> raised
  after the file had been opened: then the truncated file is left under the current batch
  number.
\<close>

theorem failed_chunk_is_skipped:
  assumes "i < length hadiths" and "0 < batch_size"
    and "try_block e l (slice i (min (i + batch_size) (length hadiths)) hadiths)
           (translations, batch_num, w) = (Inl err, w')"
  shows "translate_from e l hadiths batch_size i (translations, batch_num, w) =
           translate_from e l hadiths batch_size (i + batch_size)
             (translations, batch_num, print (Error_processing_batch batch_num err) w') \<and>
         (\<exists>result w''. translate_hadiths e l hadiths batch_size w0 = Inr (result, w'')) \<and>
         (writes w' = writes w \<and> batch_dir w' = batch_dir w \<or>
          (\<exists>contents response_text batch_translations.
             create_batch_prompt l (slice i (min (i + batch_size) (length hadiths)) hadiths) =
               Inr contents \<and>
             generate_content e (calls w) contents = Inr response_text \<and>
             parse_gemini_response response_text = Inr batch_translations \<and>
             disk e (calls w) = Dump_fails \<and>
             w' = write_file batch_num Invalid_json (w\<lparr>calls := calls w + 1\<rparr>)))"
proof -
  have "process_batch e l (slice i (min (i + batch_size) (length hadiths)) hadiths)
          (translations, batch_num, w) =
        (translations, batch_num, print (Error_processing_batch batch_num err) w')"
    using assms(3) by (simp add: process_batch_def)
  then have "translate_from e l hadiths batch_size i (translations, batch_num, w) =
           translate_from e l hadiths batch_size (i + batch_size)
             (translations, batch_num, print (Error_processing_batch batch_num err) w')"
    using translate_from_step [OF assms(1,2)] by simp
  with translate_hadiths_returns [OF assms(2)] try_block_error [OF assms(3)]
  show ?thesis by blast
qed

lemma prompt_plain: "\<exists>p. create_batch_prompt l [plain i] = Inr p"
  by (simp add: create_batch_prompt_def format_entry_def plain_def)

lemma slice_one: "slice 0 (Suc 0) [x] = [x]"
  by (simp add: slice_def)

lemma parse_1a: "parse_gemini_response (ascii ''1: a'') = Inr [\<lparr>tid = 1, ttext = ascii ''a''\<rparr>]"
  by (simp add: parser_defs char_tables)

text \<open>
  Claim C8 as stated has no chunk file persisted for a chunk whose persistence raises.
  When \<^verbatim>\<open>json.dump\<close> raises, \<^verbatim>\<open>open(batch_file, 'w')\<close> has already created the
  file: the chunk adds no record, and \<^verbatim>\<open>batch_1.json\<close> is on disk, truncated.
\<close>

theorem truncated_file_is_left:
  "translate_hadiths dump_fails_env (ascii ''French'') [plain 1] 20 empty_world =
     Inr ([], \<lparr>batch_dir = [(1, Invalid_json)], writes = [(1, Invalid_json)],
               console = [Error_processing_batch 1 OSError], calls = 1,
               final_translations = None\<rparr>)"
proof -
  obtain p where p: "create_batch_prompt (ascii ''French'') [plain 1] = Inr p"
    using prompt_plain by blast
  have "try_block dump_fails_env (ascii ''French'') [plain 1] ([], 1, empty_world) =
          (Inl OSError, \<lparr>batch_dir = [(1, Invalid_json)], writes = [(1, Invalid_json)],
               console = [], calls = 1, final_translations = None\<rparr>)"
    by (simp add: try_block_def p dump_fails_env_def parse_1a save_batch_def write_file_def
        empty_world_def)
  then have "process_batch dump_fails_env (ascii ''French'') [plain 1] ([], 1, empty_world) =
          ([], 1, \<lparr>batch_dir = [(1, Invalid_json)], writes = [(1, Invalid_json)],
               console = [Error_processing_batch 1 OSError], calls = 1, final_translations = None\<rparr>)"
    by (simp add: process_batch_def print_def)
  then show ?thesis
    by (simp add: translate_hadiths_def translate_from_step translate_from_done slice_one)
qed

theorem failed_chunk_is_skipped_witness:
  "try_block service_down_env (ascii ''French'') [plain 1] ([], 1, empty_world) =
     (Inl ServiceError, empty_world\<lparr>calls := 1\<rparr>) \<and>
   translate_hadiths service_down_env (ascii ''French'') [plain 1] 20 empty_world =
     Inr ([], \<lparr>batch_dir = [], writes = [],
               console = [Error_processing_batch 1 ServiceError], calls = 1,
               final_translations = None\<rparr>)"
proof -
  obtain p where p: "create_batch_prompt (ascii ''French'') [plain 1] = Inr p"
    using prompt_plain by blast
  have t: "try_block service_down_env (ascii ''French'') (slice 0 (min (0 + 20) (length [plain 1])) [plain 1])
             ([], 1, empty_world) = (Inl ServiceError, empty_world\<lparr>calls := 1\<rparr>)"
    by (simp add: slice_one try_block_def p service_down_env_def empty_world_def)
  have "translate_from service_down_env (ascii ''French'') [plain 1] 20 0 ([], 1, empty_world) =
          translate_from service_down_env (ascii ''French'') [plain 1] 20 (0 + 20)
            ([], 1, print (Error_processing_batch 1 ServiceError) (empty_world\<lparr>calls := 1\<rparr>))"
    using failed_chunk_is_skipped [OF _ _ t] by simp
  with t show ?thesis
    by (simp add: translate_hadiths_def translate_from_done print_def empty_world_def slice_one)
qed

section \<open>Numbering of the chunk files\<close>

lemma numbered_from_append:
  "numbered_from b (xs @ ys) =
     (numbered_from b xs \<and> numbered_from (b + length (filter complete xs)) ys)"
  by (induction xs arbitrary: b) auto

lemma numbered_from_lower: "numbered_from b fs \<Longrightarrow> f \<in> set fs \<Longrightarrow> b \<le> fst f"
proof (induction fs arbitrary: b)
  case Nil
  then show ?case by simp
next
  case (Cons g fs)
  show ?case
  proof (cases "f = g")
    case True
    with Cons.prems show ?thesis by simp
  next
    case False
    with Cons.prems have "f \<in> set fs" "numbered_from (if complete g then Suc b else b) fs"
      by auto
    from Cons.IH [OF this(2) this(1)] show ?thesis by (simp split: if_splits)
  qed
qed

lemma numbered_from_complete:
  "numbered_from b fs \<Longrightarrow>
   map fst (filter complete fs) = [b ..< b + length (filter complete fs)]"
proof (induction fs arbitrary: b)
  case Nil
  then show ?case by simp
next
  case (Cons f fs)
  show ?case
  proof (cases "complete f")
    case True
    define n where "n = length (filter complete fs)"
    from True Cons.prems have nf: "numbered_from (Suc b) fs" and b: "fst f = b" by auto
    have ih: "map fst (filter complete fs) = [Suc b ..< Suc b + n]"
      unfolding n_def by (rule Cons.IH [OF nf])
    have "[b ..< b + Suc n] = b # [Suc b ..< b + Suc n]"
      by (rule upt_conv_Cons) simp
    then have e: "[b ..< b + Suc n] = b # [Suc b ..< Suc b + n]"
      by (simp only: add_Suc_right add_Suc)
    have l: "filter complete (f # fs) = f # filter complete fs" using True by simp
    show ?thesis
      unfolding l list.map length_Cons b n_def [symmetric] ih e ..
  next
    case False
    with Cons.prems have "numbered_from b fs" by auto
    from Cons.IH [OF this] False show ?thesis by simp
  qed
qed

lemma numbered_from_not_rewritten:
  "numbered_from b fs \<Longrightarrow> j < k \<Longrightarrow> k < length fs \<Longrightarrow> complete (fs ! j) \<Longrightarrow>
   fst (fs ! j) < fst (fs ! k)"
proof (induction fs arbitrary: b j k)
  case Nil
  then show ?case by simp
next
  case (Cons f fs)
  obtain k' where k: "k = Suc k'" using Cons.prems(2) by (cases k) auto
  show ?case
  proof (cases j)
    case 0
    with Cons.prems k have "numbered_from (Suc b) fs" "fs ! k' \<in> set fs" "fst f = b"
      by auto
    from numbered_from_lower [OF this(1,2)] this(3) 0 k show ?thesis by simp
  next
    case (Suc j')
    with Cons.prems k show ?thesis
      using Cons.IH [of "if complete f then Suc b else b" j' k'] by simp
  qed
qed

lemma process_batch_writes:
  assumes "process_batch e l batch (translations, batch_num, w) = (translations', batch_num', w')"
  shows "\<exists>step. writes w' = writes w @ step \<and> numbered_from batch_num step \<and>
           batch_num' = batch_num + length (filter complete step)"
  using assms
  by (auto simp: process_batch_def try_block_def save_batch_def write_file_def print_def
        complete_def Let_def
      split: sum.splits disk_outcome.splits)

lemma translate_from_writes_aux:
  "\<exists>new. writes (snd (snd (translate_from e l hadiths batch_size i s))) =
            writes (snd (snd s)) @ new \<and>
     numbered_from (fst (snd s)) new \<and>
     fst (snd (translate_from e l hadiths batch_size i s)) =
       fst (snd s) + length (filter complete new)"
proof (induction e l hadiths batch_size i s rule: translate_from.induct)
  case (1 e l hadiths batch_size i s)
  show ?case
  proof (cases "i < length hadiths \<and> 0 < batch_size")
    case False
    then have "translate_from e l hadiths batch_size i s = s"
      by (subst translate_from.simps) (simp only: if_False)
    then show ?thesis by (intro exI [of _ "[]"]) simp
  next
    case True
    define s1 where
      "s1 = process_batch e l (slice i (min (i + batch_size) (length hadiths)) hadiths) s"
    have unfold: "translate_from e l hadiths batch_size i s =
                    translate_from e l hadiths batch_size (i + batch_size) s1"
      using True by (subst translate_from.simps) (simp add: s1_def)
    obtain t b w where s: "s = (t, b, w)" by (cases s)
    obtain t1 b1 w1 where s1: "s1 = (t1, b1, w1)" by (cases s1)
    from process_batch_writes [of e l _ t b w t1 b1 w1] s s1 s1_def obtain step where step:
      "writes w1 = writes w @ step" "numbered_from b step"
      "b1 = b + length (filter complete step)" by auto
    from 1 [OF True] obtain new where new:
      "writes (snd (snd (translate_from e l hadiths batch_size (i + batch_size) s1))) =
         writes (snd (snd s1)) @ new"
      "numbered_from (fst (snd s1)) new"
      "fst (snd (translate_from e l hadiths batch_size (i + batch_size) s1)) =
         fst (snd s1) + length (filter complete new)"
      unfolding s1_def by blast
    have unfold': "translate_from e l hadiths batch_size i (t, b, w) =
                     translate_from e l hadiths batch_size (i + batch_size) (t1, b1, w1)"
      using unfold by (simp add: s s1)
    show ?thesis
      using step new unfolding s unfold' s1
      by (intro exI [of _ "step @ new"]) (simp add: numbered_from_append)
  qed
qed

lemma translate_from_writes:
  assumes "translate_from e l hadiths batch_size i (translations, batch_num, w) =
     (translations', batch_num', w')"
  shows "\<exists>new. writes w' = writes w @ new \<and> numbered_from batch_num new \<and>
     batch_num' = batch_num + length (filter complete new)"
  using translate_from_writes_aux [of e l hadiths batch_size i "(translations, batch_num, w)"]
  by (simp add: assms)

text \<open>
  Claim C5, as amended: within one pass (one call of \<^verbatim>\<open>translate_hadiths\<close>), the
  chunk files that are written completely are \<^verbatim>\<open>batch_1.json\<close>, \<^verbatim>\<open>batch_2.json\<close>, ...
  in this order, numbered consecutively from 1, and a file written completely is not
  written again later in the pass. Every pass starts again at the number 1.
\<close>

theorem pass_numbers_files_from_one:
  assumes "translate_hadiths e l hadiths batch_size w = Inr (translations, w')"
  shows "\<exists>new. writes w' = writes w @ new \<and>
           map fst (filter complete new) = [1 ..< Suc (length (filter complete new))] \<and>
           (\<forall>j k. j < k \<and> k < length new \<and> complete (new ! j) \<longrightarrow>
                  fst (new ! j) < fst (new ! k))"
proof -
  from assms obtain batch_num' where
    "translate_from e l hadiths batch_size 0 ([], 1, w) = (translations, batch_num', w')"
    by (auto simp: translate_hadiths_def split: if_splits prod.splits)
  from translate_from_writes [OF this] obtain new where new:
    "writes w' = writes w @ new" "numbered_from 1 new" by blast
  from numbered_from_complete [OF new(2)] numbered_from_not_rewritten [OF new(2)] new(1)
  show ?thesis by (intro exI [of _ new]) auto
qed

lemma echo_pass:
  "0 < batch_size \<Longrightarrow>
   translate_hadiths echo_env (ascii ''French'') [plain 1] batch_size w =
     Inr ([\<lparr>tid = 1, ttext = ascii ''a''\<rparr>],
          print (Processed_batch 1 1) (print (Saved_batch 1)
            (write_file 1 (Json_array [\<lparr>tid = 1, ttext = ascii ''a''\<rparr>])
               (w\<lparr>calls := calls w + 1\<rparr>))))"
proof -
  assume bs: "0 < batch_size"
  obtain p where p: "create_batch_prompt (ascii ''French'') [plain 1] = Inr p"
    using prompt_plain by blast
  have sl: "slice 0 (min (0 + batch_size) (length [plain 1])) [plain 1] = [plain 1]"
    using bs by (cases batch_size) (simp_all add: slice_def)
  have "process_batch echo_env (ascii ''French'') [plain 1] ([], 1, w) =
          ([\<lparr>tid = 1, ttext = ascii ''a''\<rparr>], 2,
           print (Processed_batch 1 1) (print (Saved_batch 1)
            (write_file 1 (Json_array [\<lparr>tid = 1, ttext = ascii ''a''\<rparr>])
               (w\<lparr>calls := calls w + 1\<rparr>))))"
    by (simp add: process_batch_def try_block_def p echo_env_def parse_1a save_batch_def)
  then show ?thesis
    using bs translate_from_step [of 0 "[plain 1]" batch_size echo_env "ascii ''French''" "([], 1, w)"]
    by (simp add: translate_hadiths_def sl slice_one translate_from_done)
qed

text \<open>
  Claim C5 as stated has every chunk file written at most once across both passes.
  \<^verbatim>\<open>translate_hadiths\<close> sets \<^verbatim>\<open>batch_num = 1\<close> at each call, so the reconciliation
  pass writes \<^verbatim>\<open>batch_1.json\<close> again. With one input record and the reply \<^verbatim>\<open>1: a\<close> to
  every call: the first pass writes \<^verbatim>\<open>batch_1.json\<close> with one record, combination trims
  it away, the record is missing, and the second pass writes \<^verbatim>\<open>batch_1.json\<close> a second
  time.
\<close>

theorem second_pass_overwrites_batch_1:
  "process_all echo_env (ascii ''French'') [plain 1] empty_world = Inr after_two_passes \<and>
   \<not> written_once after_two_passes"
proof -
  have m: "find_missing_hadiths [plain 1] [] = Inr [plain 1]"
    by (simp add: find_missing_hadiths_def plain_def)
  have "process_all echo_env (ascii ''French'') [plain 1] empty_world = Inr after_two_passes"
    by (simp add: process_all_def echo_pass combine_batches_except_last_def print_def
        write_file_def empty_world_def m write_final_def after_two_passes_def)
  then show ?thesis
    by (simp add: written_once_def after_two_passes_def)
qed

lemma parse_2a: "parse_gemini_response (ascii ''2: a'') = Inr [\<lparr>tid = 2, ttext = ascii ''a''\<rparr>]"
  by (simp add: parser_defs char_tables)

lemma counting_replies:
  "generate_content counting_env 0 p = Inr (ascii ''1: a'')"
  "generate_content counting_env (Suc 0) p = Inr (ascii ''2: a'')"
  by (simp_all add: counting_env_def py_str_int_def digits_of_nat.simps ascii_def)

theorem pass_numbers_files_from_one_witness:
  "translate_hadiths counting_env (ascii ''French'') [plain 1, plain 2] 1 empty_world =
     Inr ([\<lparr>tid = 1, ttext = ascii ''a''\<rparr>, \<lparr>tid = 2, ttext = ascii ''a''\<rparr>], after_two_chunks) \<and>
   map fst (filter complete (writes after_two_chunks)) = [1, 2] \<and>
   length (filter complete (writes after_two_chunks)) = 2"
proof -
  obtain p1 where p1: "create_batch_prompt (ascii ''French'') [plain 1] = Inr p1"
    using prompt_plain by blast
  obtain p2 where p2: "create_batch_prompt (ascii ''French'') [plain 2] = Inr p2"
    using prompt_plain by blast
  have d: "disk counting_env = (\<lambda>k. Write_ok)" by (simp add: counting_env_def)
  have s1: "process_batch counting_env (ascii ''French'') [plain 1] ([], 1, empty_world) =
          ([\<lparr>tid = 1, ttext = ascii ''a''\<rparr>], 2,
           \<lparr>batch_dir = [(1, Json_array [\<lparr>tid = 1, ttext = ascii ''a''\<rparr>])],
            writes = [(1, Json_array [\<lparr>tid = 1, ttext = ascii ''a''\<rparr>])],
            console = [Saved_batch 1, Processed_batch 1 1], calls = 1,
            final_translations = None\<rparr>)"
    by (simp add: process_batch_def try_block_def p1 counting_replies d parse_1a save_batch_def
        write_file_def print_def empty_world_def)
  have s2: "process_batch counting_env (ascii ''French'') [plain 2]
          ([\<lparr>tid = 1, ttext = ascii ''a''\<rparr>], 2,
           \<lparr>batch_dir = [(1, Json_array [\<lparr>tid = 1, ttext = ascii ''a''\<rparr>])],
            writes = [(1, Json_array [\<lparr>tid = 1, ttext = ascii ''a''\<rparr>])],
            console = [Saved_batch 1, Processed_batch 1 1], calls = 1,
            final_translations = None\<rparr>) =
          ([\<lparr>tid = 1, ttext = ascii ''a''\<rparr>, \<lparr>tid = 2, ttext = ascii ''a''\<rparr>], 3, after_two_chunks)"
    by (simp add: process_batch_def try_block_def p2 counting_replies d parse_2a save_batch_def
        write_file_def print_def after_two_chunks_def)
  have "translate_from counting_env (ascii ''French'') [plain 1, plain 2] 1 0 ([], 1, empty_world) =
          ([\<lparr>tid = 1, ttext = ascii ''a''\<rparr>, \<lparr>tid = 2, ttext = ascii ''a''\<rparr>], 3, after_two_chunks)"
    by (simp add: translate_from_step translate_from_done slice_def s1 [simplified] s2 [simplified])
  then have r: "translate_hadiths counting_env (ascii ''French'') [plain 1, plain 2] 1 empty_world =
     Inr ([\<lparr>tid = 1, ttext = ascii ''a''\<rparr>, \<lparr>tid = 2, ttext = ascii ''a''\<rparr>], after_two_chunks)"
    by (simp add: translate_hadiths_def)
  have l: "length (filter complete (writes after_two_chunks)) = 2"
    by (simp add: after_two_chunks_def complete_def)
  from pass_numbers_files_from_one [OF r]
  have "map fst (filter complete (writes after_two_chunks)) =
          [1 ..< Suc (length (filter complete (writes after_two_chunks)))]"
    by (auto simp: empty_world_def)
  also have "\<dots> = [1, 2]"
    unfolding l by (simp add: upt_rec)
  finally show ?thesis using r l by simp
qed

section \<open>The run on 25 records\<close>

















end
